theory Spec2Isabelle
  imports Complex_Main
begin

section \<open>The realtime core of the client (\<open>Client.realtime\<close>, \<open>Client.subscribe\<close>)\<close>

text \<open>
  The theory embeds the realtime part of the \<open>Client\<close> class: the object \<open>realtime\<close> with
  its functions \<open>connect\<close>, \<open>getTimeout\<close>, \<open>createSocket\<close>, \<open>onMessage\<close> and \<open>cleanUp\<close>,
  the listeners that \<open>createSocket\<close> attaches to a socket, and \<open>subscribe\<close> with the closure
  it returns.

  The browser objects the code calls (WebSocket, timers, console, localStorage, JSON) are
  not part of the repository. Every call the code makes on them is recorded as an effect,
  in the order of the calls; what the code reads from them is an input of the model: the
  \<open>readyState\<close> of the socket, the outcome of \<open>JSON.parse\<close> on a frame or on the stored
  cookie, the handle that \<open>setTimeout\<close> returns. Exceptions that the JavaScript of the
  source raises by itself (a property read on \<open>null\<close> or \<open>undefined\<close>, a call of a value that
  is no function, \<open>throw\<close>) are branches of the model. What a browser object does with a
  call is not modelled: \<open>NewWebSocket u\<close> is the call \<open>new WebSocket(u)\<close>, whether or not
  the browser accepts the URL, and \<open>SocketSend f\<close> is the call of \<open>send\<close> on the socket the
  client holds, whatever the state of that socket.

  Strings are sequences of bytes (UTF-8). The two counters are JavaScript numbers, which
  count exactly up to \<open>2 ^ 53\<close>; they are natural numbers here. The arrays of channels
  that a caller hands to \<open>subscribe\<close> are values: the code never writes to them, and a
  caller that does so later is outside the model.
\<close>

subsection \<open>Values parsed from JSON\<close>

text \<open>
  What \<open>JSON.parse\<close> returns. An object is the list of its entries, each key once. A value
  of type \<open>json option\<close> is a JavaScript value that may also be \<open>undefined\<close> (\<open>None\<close>).
\<close>

datatype json =
    JNull
  | JBool bool
  | JNum rat
  | JStr string
  | JArr "json list"
  | JObj "(string \<times> json) list"

datatype exn =
    SyntaxError
  | TypeError
  | Thrown "json option"

text \<open>The values that count as true in a condition.\<close>

fun truthy :: "json option \<Rightarrow> bool" where
  "truthy None = False"
| "truthy (Some JNull) = False"
| "truthy (Some (JBool b)) = b"
| "truthy (Some (JNum n)) = (n \<noteq> 0)"
| "truthy (Some (JStr s)) = (s \<noteq> [])"
| "truthy (Some (JArr xs)) = True"
| "truthy (Some (JObj kvs)) = True"

text \<open>
  \<open>v.k\<close>: a TypeError on \<open>undefined\<close> and \<open>null\<close>, the entry of an object, \<open>undefined\<close> on
  every other value. The keys the source reads (\<open>type\<close>, \<open>data\<close>, \<open>code\<close>, \<open>channels\<close>,
  \<open>user\<close>, \<open>a_session_...\<close>) are no properties of strings, numbers, booleans or arrays, nor
  of the prototype of objects.
\<close>

fun get_prop :: "json option \<Rightarrow> string \<Rightarrow> exn + json option" where
  "get_prop None k = Inl TypeError"
| "get_prop (Some JNull) k = Inl TypeError"
| "get_prop (Some (JObj kvs)) k = Inr (map_of kvs k)"
| "get_prop (Some v) k = Inr None"

text \<open>\<open>v?.k\<close>: \<open>undefined\<close> on \<open>undefined\<close> and \<open>null\<close>, and \<open>v.k\<close> otherwise.\<close>

fun opt_prop :: "json option \<Rightarrow> string \<Rightarrow> json option" where
  "opt_prop (Some (JObj kvs)) k = map_of kvs k"
| "opt_prop v k = None"

text \<open>
  \<open>xs.includes(v)\<close> and \<open>set.has(v)\<close> for a list or set \<open>xs\<close> of strings and a parsed value
  \<open>v\<close>: only a string is equal to a string.
\<close>

fun includes_json :: "string list \<Rightarrow> json \<Rightarrow> bool" where
  "includes_json xs (JStr s) = (s \<in> set xs)"
| "includes_json xs v = False"

subsection \<open>The state\<close>

datatype readyState = CONNECTING | OPEN | CLOSING | CLOSED

fun readyState_num :: "readyState \<Rightarrow> nat" where
  "readyState_num CONNECTING = 0"
| "readyState_num OPEN = 1"
| "readyState_num CLOSING = 2"
| "readyState_num CLOSED = 3"

datatype 'cb subscription = Subscription (sub_channels: "string list") (callback: 'cb)

record config =
  endpointRealtime :: string
  project :: string

text \<open>
  The type \<open>Realtime\<close>. The socket is the \<open>readyState\<close> it reports; the \<open>Set\<close> of channels and
  the \<open>Map\<close> of subscriptions are lists in insertion order, the order in which \<open>forEach\<close>
  visits them.
\<close>

record 'cb realtime =
  socket :: "readyState option"
  timeout :: "nat option"
  url :: string
  lastMessage :: "json option"
  channels :: "string list"
  subscriptions :: "(nat \<times> 'cb subscription) list"
  subscriptionsCounter :: nat
  reconnect :: bool
  reconnectAttempts :: nat

definition fresh :: "'cb realtime" where
  "fresh = \<lparr> socket = None, timeout = None, url = [], lastMessage = None, channels = [],
     subscriptions = [], subscriptionsCounter = 0, reconnect = True, reconnectAttempts = 0 \<rparr>"

subsection \<open>Effects\<close>

text \<open>The bodies of the functions handed to \<open>setTimeout\<close>.\<close>

datatype 'cb task =
    CreateSocketTask
  | ReconnectTask
  | CallbackTask "'cb subscription" "json option"

datatype listener = OnMessage | OnOpen | OnClose

datatype logged = Caught exn | Disconnected nat

datatype 'cb effect =
    ClearTimeout "nat option"
  | SetTimeout nat "'cb task"
  | SocketClose
  | NewWebSocket string
  | AddEventListener listener
  | SocketSend json
  | ConsoleError logged

subsection \<open>\<open>Set\<close>, \<open>Map\<close> and \<open>URLSearchParams\<close>\<close>

definition Set_add :: "'a \<Rightarrow> 'a list \<Rightarrow> 'a list" where
  "Set_add x xs = (if x \<in> set xs then xs else xs @ [x])"

definition Set_delete :: "'a \<Rightarrow> 'a list \<Rightarrow> 'a list" where
  "Set_delete x xs = removeAll x xs"

fun Map_set :: "'k \<Rightarrow> 'v \<Rightarrow> ('k \<times> 'v) list \<Rightarrow> ('k \<times> 'v) list" where
  "Map_set k v [] = [(k, v)]"
| "Map_set k v ((k', v') # m) = (if k' = k then (k, v) # m else (k', v') # Map_set k v m)"

definition Map_delete :: "'k \<Rightarrow> ('k \<times> 'v) list \<Rightarrow> ('k \<times> 'v) list" where
  "Map_delete k m = filter (\<lambda>(k', v). k' \<noteq> k) m"

text \<open>
  \<open>URLSearchParams\<close> is the list of its name-value pairs. \<open>set\<close> overwrites the first pair of
  that name and drops the others, or appends; \<open>toString\<close> is the serialiser of
  \<open>application/x-www-form-urlencoded\<close>: a byte that is an ASCII letter or digit or one of
  \<open>* - . _\<close> stays, a space becomes \<open>+\<close>, every other byte becomes \<open>%\<close> and two upper-case
  hexadecimal digits.
\<close>

fun usp_set :: "string \<Rightarrow> string \<Rightarrow> (string \<times> string) list \<Rightarrow> (string \<times> string) list" where
  "usp_set n v [] = [(n, v)]"
| "usp_set n v ((n', v') # ps) =
     (if n' = n then (n, v) # filter (\<lambda>(m, w). m \<noteq> n) ps else (n', v') # usp_set n v ps)"

definition usp_append :: "string \<Rightarrow> string \<Rightarrow> (string \<times> string) list \<Rightarrow> (string \<times> string) list" where
  "usp_append n v ps = ps @ [(n, v)]"

definition hex_digit :: "nat \<Rightarrow> char" where
  "hex_digit d = ''0123456789ABCDEF'' ! (d mod 16)"

definition unreserved :: "char \<Rightarrow> bool" where
  "unreserved c = (let n = (of_char c :: nat) in
     (48 \<le> n \<and> n \<le> 57) \<or> (65 \<le> n \<and> n \<le> 90) \<or> (97 \<le> n \<and> n \<le> 122)
     \<or> n = 42 \<or> n = 45 \<or> n = 46 \<or> n = 95)"

definition urlencode_byte :: "char \<Rightarrow> string" where
  "urlencode_byte c =
     (if unreserved c then [c]
      else if c = CHR '' '' then ''+''
      else [CHR ''%'', hex_digit ((of_char c :: nat) div 16), hex_digit ((of_char c :: nat) mod 16)])"

definition urlencode :: "string \<Rightarrow> string" where
  "urlencode s = concat (map urlencode_byte s)"

fun join_amp :: "string list \<Rightarrow> string" where
  "join_amp [] = []"
| "join_amp [x] = x"
| "join_amp (x # y # xs) = x @ ''&'' @ join_amp (y # xs)"

definition usp_toString :: "(string \<times> string) list \<Rightarrow> string" where
  "usp_toString ps = join_amp (map (\<lambda>(n, v). urlencode n @ ''='' @ urlencode v) ps)"

subsection \<open>\<open>connect\<close> and \<open>getTimeout\<close>\<close>

text \<open>\<open>h\<close> is the handle that \<open>setTimeout\<close> returns.\<close>

definition connect :: "nat \<Rightarrow> 'cb realtime \<Rightarrow> 'cb realtime \<times> 'cb effect list" where
  "connect h st =
     (st\<lparr>timeout := Some h\<rparr>, [ClearTimeout (timeout st), SetTimeout 50 CreateSocketTask])"

definition getTimeout :: "'cb realtime \<Rightarrow> nat" where
  "getTimeout st =
     (if reconnectAttempts st < 5 then 1000
      else if reconnectAttempts st < 15 then 5000
      else if reconnectAttempts st < 100 then 10000
      else 60000)"

subsection \<open>\<open>createSocket\<close> and the listeners it attaches\<close>

definition url_params :: "config \<Rightarrow> 'cb realtime \<Rightarrow> (string \<times> string) list" where
  "url_params cfg st =
     fold (\<lambda>channel ps. usp_append ''channels[]'' channel ps) (channels st)
       (usp_set ''project'' (project cfg) [])"

definition createSocket_url :: "config \<Rightarrow> 'cb realtime \<Rightarrow> string" where
  "createSocket_url cfg st =
     endpointRealtime cfg @ ''/realtime?'' @ usp_toString (url_params cfg st)"

text \<open>
  \<open>socket.close()\<close> leaves the old socket in the state CLOSING; the assignment of the new
  socket, which is CONNECTING, follows at once.
\<close>

definition createSocket :: "config \<Rightarrow> 'cb realtime \<Rightarrow> 'cb realtime \<times> 'cb effect list" where
  "createSocket cfg st =
     (if length (channels st) < 1 then (st, [])
      else
        let u = createSocket_url cfg st in
        if u \<noteq> url st
           \<or> socket st = None
           \<or> (case socket st of None \<Rightarrow> False
               | Some rs \<Rightarrow> readyState_num rs > readyState_num OPEN)
        then
          let (st1, es1) =
                (case socket st of
                   None \<Rightarrow> (st, [])
                 | Some rs \<Rightarrow>
                     if readyState_num rs < readyState_num CLOSING
                     then (st\<lparr>reconnect := False, socket := Some CLOSING\<rparr>, [SocketClose])
                     else (st, []))
          in (st1\<lparr>url := u, socket := Some CONNECTING\<rparr>,
              es1 @ [NewWebSocket u, AddEventListener OnMessage, AddEventListener OnOpen,
                     AddEventListener OnClose])
        else (st, []))"

text \<open>The listener of \<open>open\<close>.\<close>

definition onOpen :: "'cb realtime \<Rightarrow> 'cb realtime" where
  "onOpen st = st\<lparr>reconnectAttempts := 0\<rparr>"

text \<open>
  The listener of \<open>close\<close>. It returns the exception that leaves it, if any. The text
  logged with the delay is not kept, nor is \<open>event.reason\<close>.
\<close>

definition onClose :: "'cb realtime \<Rightarrow> 'cb realtime \<times> 'cb effect list \<times> exn option" where
  "onClose st =
     (let scheduled = (st, [ConsoleError (Disconnected (getTimeout st)),
                            SetTimeout (getTimeout st) ReconnectTask], None)
      in
      if \<not> reconnect st then (st\<lparr>reconnect := True\<rparr>, [], None)
      else if opt_prop (lastMessage st) ''type'' = Some (JStr ''error'')
      then
        (case get_prop (lastMessage st) ''data'' of
           Inl e \<Rightarrow> (st, [], Some e)
         | Inr d \<Rightarrow>
             (case get_prop d ''code'' of
                Inl e \<Rightarrow> (st, [], Some e)
              | Inr code \<Rightarrow>
                  if code = Some (JNum 1008) then (st\<lparr>reconnect := True\<rparr>, [], None)
                  else scheduled))
      else scheduled)"

text \<open>What the functions handed to \<open>setTimeout\<close> do when the timer fires.\<close>

fun run_task :: "config \<Rightarrow> 'cb task \<Rightarrow> 'cb realtime \<Rightarrow> 'cb realtime \<times> 'cb effect list" where
  "run_task cfg CreateSocketTask st = createSocket cfg st"
| "run_task cfg ReconnectTask st =
     createSocket cfg (st\<lparr>reconnectAttempts := reconnectAttempts st + 1\<rparr>)"
| "run_task cfg (CallbackTask sub d) st = (st, [])"

subsection \<open>\<open>onMessage\<close>\<close>

text \<open>
  What \<open>localStorage.getItem\<close> returns for \<open>cookieFallback\<close>: nothing, or a text, which is
  given by what \<open>JSON.parse\<close> makes of it (\<open>None\<close> when it throws a SyntaxError).
\<close>

datatype item = NoItem | Item "json option"

fun parse_cookie :: "item \<Rightarrow> json option" where
  "parse_cookie NoItem = Some (JObj [])"
| "parse_cookie (Item r) = r"

text \<open>
  The object of which \<open>JSON.stringify\<close> makes the frame; a property that is \<open>undefined\<close> is
  left out.
\<close>

definition authentication :: "json option \<Rightarrow> json" where
  "authentication session =
     JObj [(''type'', JStr ''authentication''),
           (''data'', JObj (case session of None \<Rightarrow> [] | Some s \<Rightarrow> [(''session'', s)]))]"

text \<open>The case \<open>connected\<close>; \<open>st\<close> is the state after the assignment of \<open>lastMessage\<close>.\<close>

definition onMessage_connected ::
  "config \<Rightarrow> item \<Rightarrow> json \<Rightarrow> 'cb realtime \<Rightarrow> 'cb realtime \<times> 'cb effect list \<times> exn option" where
  "onMessage_connected cfg stored message st =
     (case parse_cookie stored of
        None \<Rightarrow> (st, [], Some SyntaxError)
      | Some cookie \<Rightarrow>
          let session = opt_prop (Some cookie) (''a_session_'' @ project cfg) in
          (case get_prop (Some message) ''data'' of
             Inl e \<Rightarrow> (st, [], Some e)
           | Inr messageData \<Rightarrow>
               if truthy session then
                 (case get_prop messageData ''user'' of
                    Inl e \<Rightarrow> (st, [], Some e)
                  | Inr user \<Rightarrow>
                      if \<not> truthy user then
                        (case socket st of
                           None \<Rightarrow> (st, [], None)
                         | Some rs \<Rightarrow> (st, [SocketSend (authentication session)], None))
                      else (st, [], None))
               else (st, [], None)))"

text \<open>
  The case \<open>event\<close>. A value that is true in a condition and is no array has no function
  \<open>some\<close>: the call is a TypeError. \<open>setTimeout\<close> without a delay is the delay 0.
\<close>

definition onMessage_event ::
  "json \<Rightarrow> 'cb realtime \<Rightarrow> 'cb realtime \<times> 'cb effect list \<times> exn option" where
  "onMessage_event message st =
     (case get_prop (Some message) ''data'' of
        Inl e \<Rightarrow> (st, [], Some e)
      | Inr data \<Rightarrow>
          let chs = opt_prop data ''channels'' in
          if truthy chs then
            (case chs of
               Some (JArr cs) \<Rightarrow>
                 let isSubscribed = list_ex (\<lambda>channel. includes_json (channels st) channel) cs in
                 if \<not> isSubscribed then (st, [], None)
                 else
                   (st,
                    concat (map (\<lambda>(key, subscription).
                        if list_ex (\<lambda>channel. includes_json (sub_channels subscription) channel) cs
                        then [SetTimeout 0 (CallbackTask subscription data)]
                        else [])
                      (subscriptions st)),
                    None)
             | _ \<Rightarrow> (st, [], Some TypeError))
          else (st, [], None))"

text \<open>
  The block of \<open>try\<close>. The frame is given by what \<open>JSON.parse\<close> makes of \<open>event.data\<close>.
\<close>

definition onMessage_try ::
  "config \<Rightarrow> item \<Rightarrow> json option \<Rightarrow> 'cb realtime \<Rightarrow> 'cb realtime \<times> 'cb effect list \<times> exn option" where
  "onMessage_try cfg stored frame st =
     (case frame of
        None \<Rightarrow> (st, [], Some SyntaxError)
      | Some message \<Rightarrow>
          let st1 = st\<lparr>lastMessage := Some message\<rparr> in
          (case get_prop (Some message) ''type'' of
             Inl e \<Rightarrow> (st1, [], Some e)
           | Inr ty \<Rightarrow>
               if ty = Some (JStr ''connected'') then onMessage_connected cfg stored message st1
               else if ty = Some (JStr ''event'') then onMessage_event message st1
               else if ty = Some (JStr ''error'')
               then
                 (case get_prop (Some message) ''data'' of
                    Inl e \<Rightarrow> (st1, [], Some e)
                  | Inr data \<Rightarrow> (st1, [], Some (Thrown data)))
               else (st1, [], None)))"

text \<open>\<open>try { ... } catch (e) { console.error(e) }\<close>\<close>

definition try_catch ::
  "'cb realtime \<times> 'cb effect list \<times> exn option \<Rightarrow> 'cb realtime \<times> 'cb effect list \<times> exn option" where
  "try_catch r =
     (case r of
        (st, es, None) \<Rightarrow> (st, es, None)
      | (st, es, Some e) \<Rightarrow> (st, es @ [ConsoleError (Caught e)], None))"

definition onMessage ::
  "config \<Rightarrow> item \<Rightarrow> json option \<Rightarrow> 'cb realtime \<Rightarrow> 'cb realtime \<times> 'cb effect list \<times> exn option" where
  "onMessage cfg stored frame st = try_catch (onMessage_try cfg stored frame st)"

subsection \<open>\<open>cleanUp\<close> and \<open>subscribe\<close>\<close>

definition found :: "'cb realtime \<Rightarrow> string \<Rightarrow> bool" where
  "found st channel =
     list_ex (\<lambda>(key, subscription). channel \<in> set (sub_channels subscription)) (subscriptions st)"

definition cleanUp_each :: "string list \<Rightarrow> string \<Rightarrow> 'cb realtime \<Rightarrow> 'cb realtime" where
  "cleanUp_each chs channel st =
     (if channel \<in> set chs then
        (if \<not> found st channel then st\<lparr>channels := Set_delete channel (channels st)\<rparr> else st)
      else st)"

text \<open>
  \<open>forEach\<close> on the set visits every channel that is in the set at the start: the body
  deletes no channel but the one it is visiting, and adds none.
\<close>

definition cleanUp :: "string list \<Rightarrow> 'cb realtime \<Rightarrow> 'cb realtime" where
  "cleanUp chs st = fold (cleanUp_each chs) (channels st) st"

datatype channels_arg = Single string | Many "string list"

fun channelArray :: "channels_arg \<Rightarrow> string list" where
  "channelArray (Single c) = [c]"
| "channelArray (Many cs) = cs"

text \<open>
  The closure that \<open>subscribe\<close> returns is the pair of \<open>counter\<close> and \<open>channelArray\<close> it has
  captured; \<open>unsubscribe\<close> is its body.
\<close>

type_synonym closure = "nat \<times> string list"

definition subscribe ::
  "nat \<Rightarrow> channels_arg \<Rightarrow> 'cb \<Rightarrow> 'cb realtime \<Rightarrow> 'cb realtime \<times> 'cb effect list \<times> closure" where
  "subscribe h arg cb st =
     (let cs = channelArray arg;
          st1 = st\<lparr>channels := fold Set_add cs (channels st)\<rparr>;
          counter = subscriptionsCounter st1;
          st2 = st1\<lparr>subscriptionsCounter := counter + 1\<rparr>;
          st3 = st2\<lparr>subscriptions := Map_set counter (Subscription cs cb) (subscriptions st2)\<rparr>;
          (st4, es) = connect h st3
      in (st4, es, (counter, cs)))"

definition unsubscribe :: "nat \<Rightarrow> closure \<Rightarrow> 'cb realtime \<Rightarrow> 'cb realtime \<times> 'cb effect list" where
  "unsubscribe h cl st =
     (let st1 = st\<lparr>subscriptions := Map_delete (fst cl) (subscriptions st)\<rparr>;
          st2 = cleanUp (snd cl) st1
      in connect h st2)"

subsection \<open>Runs\<close>

text \<open>
  What can happen to a client, one event after the other: a call of \<open>subscribe\<close>, a call of
  the closure that the \<open>i\<close>-th call of \<open>subscribe\<close> has returned, a timer that fires, an
  event of a socket, a change of the \<open>readyState\<close> of the socket the client holds. The
  events of a socket reach the listeners whether the client still holds that socket or
  not. A call of a closure that no call of \<open>subscribe\<close> has returned yet is not possible and
  changes nothing.
\<close>

datatype 'cb event =
    Subscribe channels_arg 'cb nat
  | Unsubscribe nat nat
  | Fires "'cb task"
  | SocketOpen
  | SocketClosed
  | SocketMessage "json option" item
  | ReadyState readyState

record 'cb world =
  state :: "'cb realtime"
  closures :: "closure list"

definition fresh_world :: "'cb world" where
  "fresh_world = \<lparr> state = fresh, closures = [] \<rparr>"

fun step :: "config \<Rightarrow> 'cb event \<Rightarrow> 'cb world \<Rightarrow> 'cb world" where
  "step cfg (Subscribe arg cb h) w =
     (case subscribe h arg cb (state w) of
        (st, es, cl) \<Rightarrow> w\<lparr>state := st, closures := closures w @ [cl]\<rparr>)"
| "step cfg (Unsubscribe i h) w =
     (if i < length (closures w)
      then w\<lparr>state := fst (unsubscribe h (closures w ! i) (state w))\<rparr>
      else w)"
| "step cfg (Fires t) w = w\<lparr>state := fst (run_task cfg t (state w))\<rparr>"
| "step cfg SocketOpen w = w\<lparr>state := onOpen (state w)\<rparr>"
| "step cfg SocketClosed w = w\<lparr>state := fst (onClose (state w))\<rparr>"
| "step cfg (SocketMessage frame stored) w =
     w\<lparr>state := fst (onMessage cfg stored frame (state w))\<rparr>"
| "step cfg (ReadyState rs) w =
     (case socket (state w) of
        None \<Rightarrow> w
      | Some old \<Rightarrow> w\<lparr>state := (state w)\<lparr>socket := Some rs\<rparr>\<rparr>)"

definition run :: "config \<Rightarrow> 'cb event list \<Rightarrow> 'cb world \<Rightarrow> 'cb world" where
  "run cfg evs w = fold (step cfg) evs w"

subsection \<open>What the properties speak of\<close>

text \<open>The channels that the subscriptions in the map list.\<close>

definition live_channels :: "'cb realtime \<Rightarrow> string set" where
  "live_channels st =
     (\<Union>(key, subscription) \<in> set (subscriptions st). set (sub_channels subscription))"

text \<open>
  What holds after every event: the set of channels has each channel once and is the set of
  the channels listed; the keys in the map and the counters captured by the closures are
  below the counter; the channels that a closure has captured are the channels of the
  subscription under its key, as long as that subscription is in the map.
\<close>

definition consistent :: "'cb world \<Rightarrow> bool" where
  "consistent w \<longleftrightarrow>
     distinct (channels (state w)) \<and>
     set (channels (state w)) = live_channels (state w) \<and>
     (\<forall>(k, s) \<in> set (subscriptions (state w)). k < subscriptionsCounter (state w)) \<and>
     (\<forall>(k, cs) \<in> set (closures w). k < subscriptionsCounter (state w) \<and>
        (\<forall>(k', s) \<in> set (subscriptions (state w)). k' = k \<longrightarrow> sub_channels s = cs))"

text \<open>The key \<open>k\<close> has been handed out and is no longer in the map.\<close>

definition gone :: "nat \<Rightarrow> 'cb world \<Rightarrow> bool" where
  "gone k w \<longleftrightarrow>
     k < subscriptionsCounter (state w) \<and> k \<notin> fst ` set (subscriptions (state w))"

text \<open>
  The frames handed to \<open>send\<close>, the timers set, and the URLs of the sockets opened, among
  the effects.
\<close>

fun sent :: "'cb effect list \<Rightarrow> json list" where
  "sent [] = []"
| "sent (SocketSend frame # es) = frame # sent es"
| "sent (e # es) = sent es"

fun timers :: "'cb effect list \<Rightarrow> (nat \<times> 'cb task) list" where
  "timers [] = []"
| "timers (SetTimeout delay t # es) = (delay, t) # timers es"
| "timers (e # es) = timers es"

fun opened :: "'cb effect list \<Rightarrow> string list" where
  "opened [] = []"
| "opened (NewWebSocket u # es) = u # opened es"
| "opened (e # es) = opened es"

text \<open>The events that assign \<open>lastMessage\<close>: a frame that \<open>JSON.parse\<close> accepts.\<close>

fun parsed :: "'cb event \<Rightarrow> bool" where
  "parsed (SocketMessage (Some message) stored) = True"
| "parsed ev = False"

subsection \<open>Examples\<close>

definition cfg0 :: config where
  "cfg0 = \<lparr> endpointRealtime = ''wss://cloud.appwrite.io/v1'', project = ''p1'' \<rparr>"

text \<open>Two subscriptions that share the channel \<open>B\<close>; the first one is given up.\<close>

definition shared_run :: "nat event list" where
  "shared_run =
     [Subscribe (Many [''A'', ''B'']) 1 10, Subscribe (Many [''B'', ''C'']) 2 11,
      Unsubscribe 0 12]"

text \<open>
  A client subscribes to \<open>files\<close>, its socket opens, and the server sends
  \<open>{"type":"error"}\<close>, a message of kind \<open>error\<close> without \<open>data\<close>; then the socket closes.
\<close>

definition bodiless_run :: "nat event list" where
  "bodiless_run =
     [Subscribe (Single ''files'') 7 1, Fires CreateSocketTask, ReadyState OPEN, SocketOpen,
      SocketMessage (Some (JObj [(''type'', JStr ''error'')])) NoItem, ReadyState CLOSED]"

text \<open>The message \<open>{"type":"error","data":{"code":1008,"message":"..."}}\<close>.\<close>

definition policy_violation :: json where
  "policy_violation =
     JObj [(''type'', JStr ''error''),
           (''data'', JObj [(''code'', JNum 1008), (''message'', JStr ''Policy violation'')])]"

text \<open>
  A client subscribes to \<open>files\<close> and its socket opens. After the message above, the
  socket closes (\<open>first_close\<close>); the client subscribes to \<open>account\<close> as well, a socket to
  the new URL is opened, and that socket closes before any frame has arrived
  (\<open>second_close\<close>).
\<close>

definition connected_run :: "nat event list" where
  "connected_run =
     [Subscribe (Single ''files'') 7 1, Fires CreateSocketTask, ReadyState OPEN, SocketOpen]"

definition first_close :: "nat event list" where
  "first_close = [ReadyState CLOSED]"

definition second_close :: "nat event list" where
  "second_close =
     [Subscribe (Single ''account'') 8 2, Fires CreateSocketTask, ReadyState CLOSED]"

text \<open>The message of an event on the channel \<open>files\<close>, and its \<open>data\<close>.\<close>

definition files_event_data :: json where
  "files_event_data =
     JObj [(''events'', JArr [JStr ''files.create'']), (''channels'', JArr [JStr ''files'']),
           (''timestamp'', JNum 1), (''payload'', JObj [(''$id'', JStr ''1'')])]"

definition files_event :: json where
  "files_event = JObj [(''type'', JStr ''event''), (''data'', files_event_data)]"

text \<open>
  The stored cookie \<open>{"a_session_p1":"secret"}\<close>, and the message \<open>{"type":"connected"}\<close>, of
  kind \<open>connected\<close> without \<open>data\<close>.
\<close>

definition stored_session :: item where
  "stored_session = Item (Some (JObj [(''a_session_p1'', JStr ''secret'')]))"

definition bodiless_connected :: json where
  "bodiless_connected = JObj [(''type'', JStr ''connected'')]"

text \<open>A client with a subscription to \<open>files\<close> and one to \<open>account\<close>, its socket open.\<close>

definition two_subscribers :: "nat realtime" where
  "two_subscribers =
     fresh\<lparr> socket := Some OPEN, channels := [''files'', ''account''],
            subscriptions := [(0, Subscription [''files''] 1), (1, Subscription [''account''] 2)],
            subscriptionsCounter := 2 \<rparr>"

section \<open>Properties\<close>

subsection \<open>Evaluation on examples\<close>

lemma urlencode_simps:
  "urlencode [] = []"
  "urlencode (c # cs) = urlencode_byte c @ urlencode cs"
  by (simp_all add: urlencode_def)

lemmas eval_defs = run_def fresh_world_def fresh_def subscribe_def unsubscribe_def connect_def
  cleanUp_def cleanUp_each_def found_def Set_add_def Set_delete_def Map_delete_def Let_def
  createSocket_def createSocket_url_def url_params_def usp_append_def usp_toString_def
  urlencode_simps urlencode_byte_def unreserved_def hex_digit_def
  onOpen_def onClose_def onMessage_def onMessage_try_def onMessage_connected_def
  onMessage_event_def try_catch_def getTimeout_def authentication_def cfg0_def

subsection \<open>Reading properties\<close>

lemma opt_prop_SomeD:
  assumes "opt_prop v k = Some x"
  shows "\<exists>kvs. v = Some (JObj kvs) \<and> map_of kvs k = Some x"
proof (cases v)
  case None
  with assms show ?thesis by simp
next
  case (Some j)
  with assms show ?thesis by (cases j) simp_all
qed

lemma get_prop_not_null:
  "b \<noteq> JNull \<Longrightarrow> get_prop (Some b) k = Inr (opt_prop (Some b) k)"
  by (cases b) simp_all

subsection \<open>The backoff\<close>

text \<open>
  Claim C5: \<open>getTimeout\<close> returns 1000 when the attempt counter is between 0 and 4, 5000
  when it is between 5 and 14, 10000 when it is between 15 and 99, and 60000 when it is
  100 or more.
\<close>

theorem getTimeout_tiers:
  "(reconnectAttempts st \<le> 4 \<longrightarrow> getTimeout st = 1000) \<and>
   (5 \<le> reconnectAttempts st \<and> reconnectAttempts st \<le> 14 \<longrightarrow> getTimeout st = 5000) \<and>
   (15 \<le> reconnectAttempts st \<and> reconnectAttempts st \<le> 99 \<longrightarrow> getTimeout st = 10000) \<and>
   (100 \<le> reconnectAttempts st \<longrightarrow> getTimeout st = 60000)"
  by (simp add: getTimeout_def)

theorem getTimeout_tiers_witness:
  "getTimeout ((fresh :: nat realtime)\<lparr>reconnectAttempts := 4\<rparr>) = 1000 \<and>
   getTimeout ((fresh :: nat realtime)\<lparr>reconnectAttempts := 5\<rparr>) = 5000 \<and>
   getTimeout ((fresh :: nat realtime)\<lparr>reconnectAttempts := 14\<rparr>) = 5000 \<and>
   getTimeout ((fresh :: nat realtime)\<lparr>reconnectAttempts := 15\<rparr>) = 10000 \<and>
   getTimeout ((fresh :: nat realtime)\<lparr>reconnectAttempts := 99\<rparr>) = 10000 \<and>
   getTimeout ((fresh :: nat realtime)\<lparr>reconnectAttempts := 100\<rparr>) = 60000"
  using getTimeout_tiers [of "(fresh :: nat realtime)\<lparr>reconnectAttempts := 4\<rparr>"]
    getTimeout_tiers [of "(fresh :: nat realtime)\<lparr>reconnectAttempts := 5\<rparr>"]
    getTimeout_tiers [of "(fresh :: nat realtime)\<lparr>reconnectAttempts := 14\<rparr>"]
    getTimeout_tiers [of "(fresh :: nat realtime)\<lparr>reconnectAttempts := 15\<rparr>"]
    getTimeout_tiers [of "(fresh :: nat realtime)\<lparr>reconnectAttempts := 99\<rparr>"]
    getTimeout_tiers [of "(fresh :: nat realtime)\<lparr>reconnectAttempts := 100\<rparr>"]
  by simp

subsection \<open>What each function leaves alone\<close>

lemma found_iff: "found st c \<longleftrightarrow> c \<in> live_channels st"
  by (auto simp: found_def live_channels_def list_ex_iff)

lemma live_channels_cong:
  "subscriptions st' = subscriptions st \<Longrightarrow> live_channels st' = live_channels st"
  by (simp add: live_channels_def)

lemma fold_cleanUp_each:
  "subscriptions (fold (cleanUp_each chs) xs st) = subscriptions st \<and>
   subscriptionsCounter (fold (cleanUp_each chs) xs st) = subscriptionsCounter st \<and>
   lastMessage (fold (cleanUp_each chs) xs st) = lastMessage st \<and>
   channels (fold (cleanUp_each chs) xs st) =
     filter (\<lambda>c. \<not> (c \<in> set xs \<and> c \<in> set chs \<and> c \<notin> live_channels st)) (channels st)"
proof (induction xs arbitrary: st)
  case Nil
  then show ?case by simp
next
  case (Cons x xs)
  have l: "live_channels (cleanUp_each chs x st) = live_channels st"
    by (rule live_channels_cong) (simp add: cleanUp_each_def)
  show ?case
    apply (simp add: Cons.IH l)
    apply (auto simp: cleanUp_each_def found_iff Set_delete_def removeAll_filter_not_eq
        intro!: filter_cong)
    done
qed

lemma cleanUp_fields:
  "subscriptions (cleanUp chs st) = subscriptions st"
  "subscriptionsCounter (cleanUp chs st) = subscriptionsCounter st"
  "lastMessage (cleanUp chs st) = lastMessage st"
  "channels (cleanUp chs st) =
     filter (\<lambda>c. \<not> (c \<in> set chs \<and> c \<notin> live_channels st)) (channels st)"
  using fold_cleanUp_each [of chs "channels st" st]
  by (auto simp: cleanUp_def intro!: filter_cong)

lemma createSocket_fields:
  "channels (fst (createSocket cfg st)) = channels st"
  "subscriptions (fst (createSocket cfg st)) = subscriptions st"
  "subscriptionsCounter (fst (createSocket cfg st)) = subscriptionsCounter st"
  "lastMessage (fst (createSocket cfg st)) = lastMessage st"
  by (auto simp: createSocket_def Let_def split: option.splits)

lemma run_task_fields:
  "channels (fst (run_task cfg t st)) = channels st"
  "subscriptions (fst (run_task cfg t st)) = subscriptions st"
  "subscriptionsCounter (fst (run_task cfg t st)) = subscriptionsCounter st"
  "lastMessage (fst (run_task cfg t st)) = lastMessage st"
  by (cases t; simp add: createSocket_fields)+

lemma onClose_fields:
  "channels (fst (onClose st)) = channels st"
  "subscriptions (fst (onClose st)) = subscriptions st"
  "subscriptionsCounter (fst (onClose st)) = subscriptionsCounter st"
  "lastMessage (fst (onClose st)) = lastMessage st"
  by (auto simp: onClose_def Let_def split: sum.splits)

lemma onMessage_connected_state: "fst (onMessage_connected cfg stored m st) = st"
  by (auto simp: onMessage_connected_def Let_def split: sum.splits option.splits)

lemma onMessage_event_state: "fst (onMessage_event m st) = st"
  by (auto simp: onMessage_event_def Let_def split: sum.splits option.splits json.splits)

lemma fst_try_catch: "fst (try_catch r) = fst r"
  by (auto simp: try_catch_def split: prod.splits option.splits)

lemma onMessage_state:
  "fst (onMessage cfg stored frame st) =
     (case frame of None \<Rightarrow> st | Some m \<Rightarrow> st\<lparr>lastMessage := Some m\<rparr>)"
  by (auto simp: onMessage_def fst_try_catch onMessage_try_def Let_def
      onMessage_connected_state onMessage_event_state split: sum.splits option.splits)

lemma onMessage_fields:
  "channels (fst (onMessage cfg stored frame st)) = channels st"
  "subscriptions (fst (onMessage cfg stored frame st)) = subscriptions st"
  "subscriptionsCounter (fst (onMessage cfg stored frame st)) = subscriptionsCounter st"
  by (auto simp: onMessage_state split: option.splits)

lemma subscribe_fields:
  "channels (fst (subscribe h arg cb st)) = fold Set_add (channelArray arg) (channels st)"
  "subscriptions (fst (subscribe h arg cb st)) =
     Map_set (subscriptionsCounter st) (Subscription (channelArray arg) cb) (subscriptions st)"
  "subscriptionsCounter (fst (subscribe h arg cb st)) = subscriptionsCounter st + 1"
  "lastMessage (fst (subscribe h arg cb st)) = lastMessage st"
  "snd (snd (subscribe h arg cb st)) = (subscriptionsCounter st, channelArray arg)"
  by (simp_all add: subscribe_def connect_def Let_def)

lemma unsubscribe_fields:
  "subscriptions (fst (unsubscribe h cl st)) = Map_delete (fst cl) (subscriptions st)"
  "subscriptionsCounter (fst (unsubscribe h cl st)) = subscriptionsCounter st"
  "lastMessage (fst (unsubscribe h cl st)) = lastMessage st"
  "channels (fst (unsubscribe h cl st)) =
     filter (\<lambda>c. \<not> (c \<in> set (snd cl) \<and>
         c \<notin> live_channels (st\<lparr>subscriptions := Map_delete (fst cl) (subscriptions st)\<rparr>)))
       (channels st)"
  by (simp_all add: unsubscribe_def connect_def Let_def cleanUp_fields)

subsection \<open>The channel set and the subscriptions\<close>

lemma set_fold_Set_add: "set (fold Set_add cs xs) = set xs \<union> set cs"
  by (induction cs arbitrary: xs) (auto simp: Set_add_def)

lemma distinct_fold_Set_add: "distinct xs \<Longrightarrow> distinct (fold Set_add cs xs)"
  by (induction cs arbitrary: xs) (auto simp: Set_add_def)

lemma Map_set_fresh: "k \<notin> fst ` set m \<Longrightarrow> Map_set k v m = m @ [(k, v)]"
  by (induction m) auto

lemma keys_Map_set: "fst ` set (Map_set k v m) = insert k (fst ` set m)"
proof (induction m)
  case Nil
  then show ?case by simp
next
  case (Cons p m)
  then show ?case by (cases p) (auto simp: insert_commute)
qed

lemma Map_delete_absent: "k \<notin> fst ` set m \<Longrightarrow> Map_delete k m = m"
  unfolding Map_delete_def by (induction m) auto

lemma consistent_subscribe:
  assumes "consistent w"
  shows "consistent (step cfg (Subscribe arg cb h) w)"
proof -
  let ?st = "state w"
  let ?k = "subscriptionsCounter ?st"
  from assms have fresh_key: "?k \<notin> fst ` set (subscriptions ?st)"
    by (auto simp: consistent_def)
  have subs: "subscriptions (fst (subscribe h arg cb ?st)) =
      subscriptions ?st @ [(?k, Subscription (channelArray arg) cb)]"
    by (simp add: subscribe_fields Map_set_fresh [OF fresh_key])
  have live: "live_channels (fst (subscribe h arg cb ?st)) =
      live_channels ?st \<union> set (channelArray arg)"
    by (auto simp: live_channels_def subs)
  obtain st es cl where r: "subscribe h arg cb ?st = (st, es, cl)"
    by (cases "subscribe h arg cb ?st") auto
  have st: "st = fst (subscribe h arg cb ?st)" and cl: "cl = (?k, channelArray arg)"
    using r subscribe_fields(5) [of h arg cb ?st] by auto
  show ?thesis
    using assms
    apply (simp add: r)
    apply (simp add: consistent_def st cl live subs subscribe_fields(1,3) set_fold_Set_add
        distinct_fold_Set_add)
    apply fastforce
    done
qed

lemma consistent_unsubscribe:
  assumes "consistent w"
  shows "consistent (step cfg (Unsubscribe i h) w)"
proof (cases "i < length (closures w)")
  case False
  then show ?thesis using assms by simp
next
  case True
  let ?st = "state w"
  obtain k cs where cl: "closures w ! i = (k, cs)" by (cases "closures w ! i") auto
  have mem: "(k, cs) \<in> set (closures w)" using True cl by (metis nth_mem)
  have own: "\<And>k' s. (k', s) \<in> set (subscriptions ?st) \<Longrightarrow> k' = k \<Longrightarrow> sub_channels s = cs"
    using assms mem by (fastforce simp: consistent_def)
  have chan: "set (channels (fst (unsubscribe h (k, cs) ?st))) =
      live_channels (fst (unsubscribe h (k, cs) ?st))"
  proof -
    have "set (channels ?st) = live_channels ?st" using assms by (simp add: consistent_def)
    then show ?thesis
      apply (simp add: live_channels_def unsubscribe_fields Map_delete_def)
      apply (auto dest: own)
      done
  qed
  show ?thesis
    using assms True chan
    apply (simp add: cl)
    apply (simp add: consistent_def unsubscribe_fields(1,2,4) Map_delete_def)
    apply fastforce
    done
qed

lemma consistent_step: "consistent w \<Longrightarrow> consistent (step cfg ev w)"
proof (cases ev)
  case (Subscribe arg cb h)
  assume "consistent w" then show ?thesis unfolding Subscribe by (rule consistent_subscribe)
next
  case (Unsubscribe i h)
  assume "consistent w" then show ?thesis unfolding Unsubscribe by (rule consistent_unsubscribe)
next
  case (Fires t)
  assume "consistent w" then show ?thesis
    by (simp add: Fires consistent_def live_channels_def run_task_fields)
next
  case SocketOpen
  assume "consistent w" then show ?thesis
    by (simp add: SocketOpen consistent_def live_channels_def onOpen_def)
next
  case SocketClosed
  assume "consistent w" then show ?thesis
    by (simp add: SocketClosed consistent_def live_channels_def onClose_fields)
next
  case (SocketMessage frame stored)
  assume "consistent w" then show ?thesis
    by (simp add: SocketMessage consistent_def live_channels_def onMessage_fields)
next
  case (ReadyState rs)
  assume "consistent w" then show ?thesis
    by (simp add: ReadyState consistent_def live_channels_def split: option.splits)
qed

lemma consistent_fresh: "consistent fresh_world"
  by (simp add: consistent_def fresh_world_def fresh_def live_channels_def)

lemma consistent_run: "consistent w \<Longrightarrow> consistent (run cfg evs w)"
  unfolding run_def by (induction evs arbitrary: w) (auto intro: consistent_step)

text \<open>
  Claim C1: after every finite sequence of events on a fresh client (calls of \<open>subscribe\<close>
  and of the closures it has returned, and in between them timers and events of sockets),
  the set of channels is exactly the union of the channel lists of the subscriptions that
  are in the map: no channel more and no channel less.
\<close>

theorem channels_live:
  "set (channels (state (run cfg evs fresh_world))) =
     (\<Union>(key, subscription) \<in> set (subscriptions (state (run cfg evs fresh_world))).
        set (sub_channels subscription))"
  using consistent_run [OF consistent_fresh, of cfg evs]
  by (simp add: consistent_def live_channels_def)

theorem channels_live_witness:
  "channels (state (run cfg0 shared_run fresh_world)) = [''B'', ''C''] \<and>
   subscriptions (state (run cfg0 shared_run fresh_world)) = [(1, Subscription [''B'', ''C''] 2)] \<and>
   set (channels (state (run cfg0 shared_run fresh_world))) =
     (\<Union>(key, subscription) \<in> set (subscriptions (state (run cfg0 shared_run fresh_world))).
        set (sub_channels subscription))"
proof -
  have "channels (state (run cfg0 shared_run fresh_world)) = [''B'', ''C'']"
    by (simp add: shared_run_def eval_defs)
  moreover have "subscriptions (state (run cfg0 shared_run fresh_world)) =
      [(1, Subscription [''B'', ''C''] 2)]"
    by (simp add: shared_run_def eval_defs)
  ultimately show ?thesis
    using channels_live [of cfg0 shared_run] by simp
qed

subsection \<open>Calling a closure again\<close>

lemma closures_step:
  "i < length (closures w) \<Longrightarrow>
     i < length (closures (step cfg ev w)) \<and> closures (step cfg ev w) ! i = closures w ! i"
  by (cases ev) (auto simp: nth_append split: prod.splits option.splits)

lemma closures_run:
  "i < length (closures w) \<Longrightarrow>
     i < length (closures (run cfg evs w)) \<and> closures (run cfg evs w) ! i = closures w ! i"
  unfolding run_def
proof (induction evs arbitrary: w)
  case Nil
  then show ?case by simp
next
  case (Cons ev evs)
  from closures_step [OF Cons.prems, of cfg ev] Cons.IH [of "step cfg ev w"]
  show ?case by simp
qed

lemma gone_step: "gone k w \<Longrightarrow> gone k (step cfg ev w)"
proof (cases ev)
  case (Subscribe arg cb h)
  assume "gone k w" then show ?thesis
    by (cases "subscribe h arg cb (state w)")
      (use subscribe_fields(2,3) [of h arg cb "state w"] in
        \<open>auto simp: Subscribe gone_def keys_Map_set\<close>)
next
  case (Unsubscribe i h)
  assume "gone k w" then show ?thesis
    by (auto simp: Unsubscribe gone_def unsubscribe_fields Map_delete_def)
next
  case (Fires t)
  assume "gone k w" then show ?thesis by (simp add: Fires gone_def run_task_fields)
next
  case SocketOpen
  assume "gone k w" then show ?thesis by (simp add: SocketOpen gone_def onOpen_def)
next
  case SocketClosed
  assume "gone k w" then show ?thesis by (simp add: SocketClosed gone_def onClose_fields)
next
  case (SocketMessage frame stored)
  assume "gone k w" then show ?thesis by (simp add: SocketMessage gone_def onMessage_fields)
next
  case (ReadyState rs)
  assume "gone k w" then show ?thesis by (simp add: ReadyState gone_def split: option.splits)
qed

lemma gone_run: "gone k w \<Longrightarrow> gone k (run cfg evs w)"
  unfolding run_def by (induction evs arbitrary: w) (auto intro: gone_step)

lemma gone_after_unsubscribe:
  assumes "consistent w" and "i < length (closures w)"
  shows "gone (fst (closures w ! i)) (step cfg (Unsubscribe i h) w)"
proof -
  have "closures w ! i \<in> set (closures w)" using assms(2) by simp
  then have "fst (closures w ! i) < subscriptionsCounter (state w)"
    using assms(1) by (fastforce simp: consistent_def)
  then show ?thesis
    using assms(2) by (auto simp: gone_def unsubscribe_fields Map_delete_def)
qed

lemma unsubscribe_gone:
  assumes "consistent w" and "gone (fst cl) w"
  shows "subscriptions (fst (unsubscribe h cl (state w))) = subscriptions (state w) \<and>
         channels (fst (unsubscribe h cl (state w))) = channels (state w)"
proof -
  have d: "Map_delete (fst cl) (subscriptions (state w)) = subscriptions (state w)"
    using assms(2) by (simp add: gone_def Map_delete_absent)
  have l: "set (channels (state w)) = live_channels (state w)"
    using assms(1) by (simp add: consistent_def)
  have "live_channels ((state w)\<lparr>subscriptions := subscriptions (state w)\<rparr>) =
      live_channels (state w)"
    by (simp add: live_channels_def)
  then show ?thesis
    using l by (simp add: unsubscribe_fields d)
qed

text \<open>
  Claim C8: when the closure that the \<open>i\<close>-th call of \<open>subscribe\<close> has returned is called a
  second time, whatever events have happened before the first call (\<open>evs1\<close>) and between
  the two calls (\<open>evs2\<close>), the second call leaves the map of subscriptions and the set of
  channels as they were just before it.
\<close>

theorem unsubscribe_twice:
  assumes "i < length (closures (run cfg evs1 fresh_world))"
  shows "subscriptions (state (step cfg (Unsubscribe i h2)
            (run cfg (evs1 @ Unsubscribe i h1 # evs2) fresh_world))) =
         subscriptions (state (run cfg (evs1 @ Unsubscribe i h1 # evs2) fresh_world)) \<and>
         channels (state (step cfg (Unsubscribe i h2)
            (run cfg (evs1 @ Unsubscribe i h1 # evs2) fresh_world))) =
         channels (state (run cfg (evs1 @ Unsubscribe i h1 # evs2) fresh_world))"
proof -
  let ?w1 = "run cfg evs1 fresh_world"
  let ?w2 = "step cfg (Unsubscribe i h1) ?w1"
  let ?w3 = "run cfg evs2 ?w2"
  have w3: "run cfg (evs1 @ Unsubscribe i h1 # evs2) fresh_world = ?w3"
    by (simp add: run_def)
  have c1: "consistent ?w1" by (rule consistent_run [OF consistent_fresh])
  have c3: "consistent ?w3" by (intro consistent_run consistent_step c1)
  have i2: "i < length (closures ?w2)" and cl2: "closures ?w2 ! i = closures ?w1 ! i"
    using closures_step [OF assms, of cfg "Unsubscribe i h1"] by simp_all
  have i3: "i < length (closures ?w3)" and cl3: "closures ?w3 ! i = closures ?w1 ! i"
    using closures_run [OF i2, of cfg evs2] cl2 by simp_all
  have "gone (fst (closures ?w1 ! i)) ?w3"
    by (intro gone_run gone_after_unsubscribe c1 assms)
  then have g: "gone (fst (closures ?w3 ! i)) ?w3" unfolding cl3 .
  have "state (step cfg (Unsubscribe i h2) ?w3) =
      fst (unsubscribe h2 (closures ?w3 ! i) (state ?w3))"
    using i3 by (simp del: step.simps add: step.simps(2) [of cfg i h2 ?w3])
  with unsubscribe_gone [OF c3 g, of h2] show ?thesis
    unfolding w3 by (simp only:)
qed

theorem unsubscribe_twice_witness:
  "0 < length (closures (run cfg0
       [Subscribe (Many [''A'', ''B'']) (1::nat) 10, Subscribe (Single ''B'') 2 11] fresh_world)) \<and>
   subscriptions (state (run cfg0
       ([Subscribe (Many [''A'', ''B'']) (1::nat) 10, Subscribe (Single ''B'') 2 11]
        @ Unsubscribe 0 12 # [Subscribe (Single ''C'') 3 13]) fresh_world)) =
     [(1, Subscription [''B''] 2), (2, Subscription [''C''] 3)] \<and>
   channels (state (run cfg0
       ([Subscribe (Many [''A'', ''B'']) (1::nat) 10, Subscribe (Single ''B'') 2 11]
        @ Unsubscribe 0 12 # [Subscribe (Single ''C'') 3 13]) fresh_world)) = [''B'', ''C''] \<and>
   subscriptions (state (step cfg0 (Unsubscribe 0 14) (run cfg0
       ([Subscribe (Many [''A'', ''B'']) (1::nat) 10, Subscribe (Single ''B'') 2 11]
        @ Unsubscribe 0 12 # [Subscribe (Single ''C'') 3 13]) fresh_world))) =
     [(1, Subscription [''B''] 2), (2, Subscription [''C''] 3)] \<and>
   channels (state (step cfg0 (Unsubscribe 0 14) (run cfg0
       ([Subscribe (Many [''A'', ''B'']) (1::nat) 10, Subscribe (Single ''B'') 2 11]
        @ Unsubscribe 0 12 # [Subscribe (Single ''C'') 3 13]) fresh_world))) = [''B'', ''C'']"
proof -
  let ?evs1 = "[Subscribe (Many [''A'', ''B'']) (1::nat) 10, Subscribe (Single ''B'') 2 11]"
  let ?w = "run cfg0 (?evs1 @ Unsubscribe 0 12 # [Subscribe (Single ''C'') 3 13]) fresh_world"
  have h: "0 < length (closures (run cfg0 ?evs1 fresh_world))"
    by (simp add: eval_defs)
  have s: "subscriptions (state ?w) = [(1, Subscription [''B''] 2), (2, Subscription [''C''] 3)]"
    by (simp add: eval_defs)
  have c: "channels (state ?w) = [''B'', ''C'']"
    by (simp add: eval_defs)
  from unsubscribe_twice [OF h, of 14 12 "[Subscribe (Single ''C'') 3 13]"] h s c
  show ?thesis by (simp only: simp_thms)
qed

subsection \<open>\<open>createSocket\<close>\<close>

text \<open>
  Claim C3: with an empty set of channels \<open>createSocket\<close> opens no socket and changes
  nothing. Otherwise it opens a socket to the URL it has computed exactly when that URL is
  not the stored one, or there is no socket, or the socket is CLOSING or CLOSED; a socket
  that is CONNECTING or OPEN is closed before, after \<open>reconnect\<close> has been set to false.
  When the URL is the stored one and the socket is CONNECTING or OPEN, nothing happens.
\<close>

theorem createSocket_decision:
  "(channels st = [] \<longrightarrow> createSocket cfg st = (st, [])) \<and>
   (channels st \<noteq> [] \<longrightarrow>
      (createSocket_url cfg st \<noteq> url st \<or> socket st = None
         \<or> socket st = Some CLOSING \<or> socket st = Some CLOSED \<longrightarrow>
       createSocket cfg st =
         (st\<lparr>reconnect := (if socket st = Some CONNECTING \<or> socket st = Some OPEN
                             then False else reconnect st),
             url := createSocket_url cfg st,
             socket := Some CONNECTING\<rparr>,
          (if socket st = Some CONNECTING \<or> socket st = Some OPEN then [SocketClose] else [])
          @ [NewWebSocket (createSocket_url cfg st), AddEventListener OnMessage,
             AddEventListener OnOpen, AddEventListener OnClose])) \<and>
      (createSocket_url cfg st = url st \<and> (socket st = Some CONNECTING \<or> socket st = Some OPEN) \<longrightarrow>
       createSocket cfg st = (st, [])))"
proof (cases "socket st")
  case None
  then show ?thesis by (cases "channels st") (simp_all add: createSocket_def Let_def)
next
  case (Some rs)
  then show ?thesis
    by (cases rs; cases "channels st") (auto simp: createSocket_def Let_def)
qed

theorem createSocket_decision_witness:
  "createSocket cfg0 (fresh :: nat realtime) = (fresh, []) \<and>
   createSocket cfg0 ((fresh :: nat realtime)\<lparr>channels := [''files'']\<rparr>) =
     (fresh\<lparr>channels := [''files''],
            url := ''wss://cloud.appwrite.io/v1/realtime?project=p1&channels%5B%5D=files'',
            socket := Some CONNECTING\<rparr>,
      [NewWebSocket ''wss://cloud.appwrite.io/v1/realtime?project=p1&channels%5B%5D=files'',
       AddEventListener OnMessage, AddEventListener OnOpen, AddEventListener OnClose]) \<and>
   createSocket cfg0 ((fresh :: nat realtime)\<lparr>channels := [''files''], socket := Some OPEN\<rparr>) =
     (fresh\<lparr>channels := [''files''], reconnect := False,
            url := ''wss://cloud.appwrite.io/v1/realtime?project=p1&channels%5B%5D=files'',
            socket := Some CONNECTING\<rparr>,
      [SocketClose,
       NewWebSocket ''wss://cloud.appwrite.io/v1/realtime?project=p1&channels%5B%5D=files'',
       AddEventListener OnMessage, AddEventListener OnOpen, AddEventListener OnClose]) \<and>
   createSocket cfg0 ((fresh :: nat realtime)\<lparr>channels := [''files''], socket := Some OPEN,
       url := ''wss://cloud.appwrite.io/v1/realtime?project=p1&channels%5B%5D=files''\<rparr>) =
     (fresh\<lparr>channels := [''files''], socket := Some OPEN,
        url := ''wss://cloud.appwrite.io/v1/realtime?project=p1&channels%5B%5D=files''\<rparr>, [])"
proof -
  have u: "createSocket_url cfg0 st =
      ''wss://cloud.appwrite.io/v1/realtime?project=p1&channels%5B%5D=files''"
    if "channels st = [''files'']" for st :: "nat realtime"
    using that by (simp add: eval_defs)
  show ?thesis
    using createSocket_decision [of "fresh :: nat realtime" cfg0]
      createSocket_decision [of "(fresh :: nat realtime)\<lparr>channels := [''files'']\<rparr>" cfg0]
      createSocket_decision [of "(fresh :: nat realtime)\<lparr>channels := [''files''],
          socket := Some OPEN\<rparr>" cfg0]
      createSocket_decision [of "(fresh :: nat realtime)\<lparr>channels := [''files''],
          socket := Some OPEN,
          url := ''wss://cloud.appwrite.io/v1/realtime?project=p1&channels%5B%5D=files''\<rparr>" cfg0]
    by (simp add: u fresh_def)
qed

subsection \<open>The URL\<close>

lemma fold_usp_append:
  "fold (\<lambda>channel ps. usp_append n channel ps) cs ps0 = ps0 @ map (\<lambda>channel. (n, channel)) cs"
  by (induction cs arbitrary: ps0) (simp_all add: usp_append_def)

lemma url_params_eq:
  "url_params cfg st =
     (''project'', project cfg) # map (\<lambda>channel. (''channels[]'', channel)) (channels st)"
  by (simp add: url_params_def fold_usp_append)

lemma join_amp_Cons: "join_amp (x # xs) = x @ concat (map (\<lambda>y. ''&'' @ y) xs)"
  by (induction xs arbitrary: x) simp_all

lemma urlencode_project: "urlencode ''project'' = ''project''"
  by (simp add: urlencode_simps urlencode_byte_def unreserved_def)

lemma urlencode_channels: "urlencode ''channels[]'' = ''channels%5B%5D''"
  by (simp add: urlencode_simps urlencode_byte_def unreserved_def hex_digit_def)

lemma usp_toString_params:
  "usp_toString (url_params cfg st) =
     ''project='' @ urlencode (project cfg) @
     concat (map (\<lambda>channel. ''&channels%5B%5D='' @ urlencode channel) (channels st))"
  by (simp add: usp_toString_def url_params_eq join_amp_Cons urlencode_project
      urlencode_channels comp_def)

lemma distinct_url_params: "distinct (channels st) \<Longrightarrow> distinct (url_params cfg st)"
  by (auto simp: url_params_eq distinct_map inj_on_def)

text \<open>
  Claim C6: the URL that \<open>createSocket\<close> computes is the realtime endpoint, then
  \<open>/realtime?\<close>, then the query string of the parameters \<open>project\<close>, with the project id, and
  \<open>channels[]\<close>, once for each channel of the set, in the order of the set; in the text of
  the query string the names and the values are percent-encoded. With a set of channels
  that is not empty, this URL is the stored URL after \<open>createSocket\<close>, and \<open>createSocket\<close>
  opens one socket, to this URL, unless the URL was the stored one already and the socket
  is CONNECTING or OPEN. Two sets of channels that are equal as sets give the same set of
  \<open>channels[]\<close> parameters, whatever the order of insertion.
\<close>

theorem createSocket_url_format:
  "createSocket_url cfg st =
     endpointRealtime cfg @ ''/realtime?'' @ usp_toString (url_params cfg st) \<and>
   url_params cfg st =
     (''project'', project cfg) # map (\<lambda>channel. (''channels[]'', channel)) (channels st) \<and>
   usp_toString (url_params cfg st) =
     ''project='' @ urlencode (project cfg) @
     concat (map (\<lambda>channel. ''&channels%5B%5D='' @ urlencode channel) (channels st)) \<and>
   (distinct (channels st) \<longrightarrow> distinct (url_params cfg st)) \<and>
   (channels st \<noteq> [] \<longrightarrow>
      url (fst (createSocket cfg st)) = createSocket_url cfg st \<and>
      opened (snd (createSocket cfg st)) =
        (if createSocket_url cfg st = url st \<and> (socket st = Some CONNECTING \<or> socket st = Some OPEN)
         then [] else [createSocket_url cfg st])) \<and>
   (set (channels st) = set (channels st') \<longrightarrow>
      {p \<in> set (url_params cfg st). fst p = ''channels[]''} =
      {p \<in> set (url_params cfg' st'). fst p = ''channels[]''})"
proof -
  have "set (channels st) = set (channels st') \<Longrightarrow>
      {p \<in> set (url_params cfg st). fst p = ''channels[]''} =
      {p \<in> set (url_params cfg' st'). fst p = ''channels[]''}"
    by (auto simp: url_params_eq)
  moreover have "url (fst (createSocket cfg st)) = createSocket_url cfg st \<and>
      opened (snd (createSocket cfg st)) =
        (if createSocket_url cfg st = url st \<and> (socket st = Some CONNECTING \<or> socket st = Some OPEN)
         then [] else [createSocket_url cfg st])"
    if ne: "channels st \<noteq> []"
  proof (cases "socket st")
    case None
    with ne show ?thesis by (cases "channels st") (simp_all add: createSocket_def Let_def)
  next
    case (Some rs)
    with ne show ?thesis
      by (cases rs; cases "channels st") (auto simp: createSocket_def Let_def)
  qed
  ultimately show ?thesis
    by (simp add: createSocket_url_def url_params_eq [symmetric] usp_toString_params
        distinct_url_params)
qed

theorem createSocket_url_format_witness:
  "createSocket_url cfg0 ((fresh :: nat realtime)\<lparr>channels := [''files'', ''documents.a b'']\<rparr>) =
     ''wss://cloud.appwrite.io/v1/realtime?project=p1&channels%5B%5D=files&channels%5B%5D=documents.a+b'' \<and>
   url_params cfg0 ((fresh :: nat realtime)\<lparr>channels := [''files'', ''documents.a b'']\<rparr>) =
     [(''project'', ''p1''), (''channels[]'', ''files''), (''channels[]'', ''documents.a b'')] \<and>
   url (fst (createSocket cfg0
       ((fresh :: nat realtime)\<lparr>channels := [''files'', ''documents.a b'']\<rparr>))) =
     ''wss://cloud.appwrite.io/v1/realtime?project=p1&channels%5B%5D=files&channels%5B%5D=documents.a+b'' \<and>
   opened (snd (createSocket cfg0
       ((fresh :: nat realtime)\<lparr>channels := [''files'', ''documents.a b'']\<rparr>))) =
     [''wss://cloud.appwrite.io/v1/realtime?project=p1&channels%5B%5D=files&channels%5B%5D=documents.a+b''] \<and>
   {p \<in> set (url_params cfg0 ((fresh :: nat realtime)\<lparr>channels := [''files'', ''documents.a b'']\<rparr>)).
      fst p = ''channels[]''} =
   {p \<in> set (url_params cfg0 ((fresh :: nat realtime)\<lparr>channels := [''documents.a b'', ''files'']\<rparr>)).
      fst p = ''channels[]''}"
proof -
  let ?st = "(fresh :: nat realtime)\<lparr>channels := [''files'', ''documents.a b'']\<rparr>"
  let ?st' = "(fresh :: nat realtime)\<lparr>channels := [''documents.a b'', ''files'']\<rparr>"
  have s: "set (channels ?st) = set (channels ?st')" by auto
  have e: "urlencode ''p1'' = ''p1''" "urlencode ''files'' = ''files''"
    "urlencode ''documents.a b'' = ''documents.a+b''"
    by (simp_all add: urlencode_simps urlencode_byte_def unreserved_def)
  note t = createSocket_url_format [of cfg0 ?st ?st' cfg0]
  note t1 = t [THEN conjunct1]
  note t2 = t [THEN conjunct2, THEN conjunct1]
  note t3 = t [THEN conjunct2, THEN conjunct2, THEN conjunct1]
  have n: "channels ?st \<noteq> []" by simp
  note t5 = t [THEN conjunct2, THEN conjunct2, THEN conjunct2, THEN conjunct2, THEN conjunct1,
      THEN mp, OF n]
  note t6 = t [THEN conjunct2, THEN conjunct2, THEN conjunct2, THEN conjunct2, THEN conjunct2,
      THEN mp, OF s]
  have u: "createSocket_url cfg0 ?st =
      ''wss://cloud.appwrite.io/v1/realtime?project=p1&channels%5B%5D=files&channels%5B%5D=documents.a+b''"
    unfolding t1 t3 by (simp add: cfg0_def e)
  have p: "url_params cfg0 ?st =
      [(''project'', ''p1''), (''channels[]'', ''files''), (''channels[]'', ''documents.a b'')]"
    unfolding t2 by (simp add: cfg0_def)
  have v: "url (fst (createSocket cfg0 ?st)) =
      ''wss://cloud.appwrite.io/v1/realtime?project=p1&channels%5B%5D=files&channels%5B%5D=documents.a+b''"
    using t5 [THEN conjunct1] by (simp only: u)
  have "socket ?st = None" by (simp add: fresh_def)
  with t5 [THEN conjunct2] have o: "opened (snd (createSocket cfg0 ?st)) =
      [''wss://cloud.appwrite.io/v1/realtime?project=p1&channels%5B%5D=files&channels%5B%5D=documents.a+b'']"
    by (simp add: u)
  show ?thesis by (intro conjI u p v o t6)
qed

subsection \<open>\<open>onMessage\<close>\<close>

lemma list_ex_includes_json:
  "list_ex (\<lambda>channel. includes_json xs channel) cs \<longleftrightarrow> set cs \<inter> JStr ` set xs \<noteq> {}"
proof -
  have "includes_json xs c \<longleftrightarrow> c \<in> JStr ` set xs" for c
    by (cases c) auto
  then show ?thesis by (auto simp: list_ex_iff)
qed

lemma onMessage_event_eq:
  assumes "get_prop (Some message) ''data'' = Inr data"
    and "opt_prop data ''channels'' = Some (JArr cs)"
  shows "onMessage_event message st =
     (st,
      (if set cs \<inter> JStr ` set (channels st) = {} then []
       else map (\<lambda>(key, subscription). SetTimeout 0 (CallbackTask subscription data))
              (filter (\<lambda>(key, subscription).
                  set cs \<inter> JStr ` set (sub_channels subscription) \<noteq> {})
                 (subscriptions st))),
      None)"
proof -
  have "concat (map (\<lambda>(key, subscription).
            if list_ex (\<lambda>channel. includes_json (sub_channels subscription) channel) cs
            then [SetTimeout 0 (CallbackTask subscription data)] else []) subs) =
        map (\<lambda>(key, subscription). SetTimeout 0 (CallbackTask subscription data))
          (filter (\<lambda>(key, subscription).
              set cs \<inter> JStr ` set (sub_channels subscription) \<noteq> {}) subs)"
    for subs :: "(nat \<times> 'a subscription) list"
    by (induction subs) (simp_all add: list_ex_includes_json split: prod.splits)
  then show ?thesis
    using assms by (simp add: onMessage_event_def Let_def list_ex_includes_json)
qed

text \<open>
  Claim C4: a parsed message of kind \<open>event\<close> whose \<open>data\<close> has the channel list \<open>cs\<close>. When
  no channel of \<open>cs\<close> is in the set of channels, nothing is scheduled. Otherwise what
  \<open>onMessage\<close> does is one \<open>setTimeout\<close> with the call of the callback on \<open>data\<close> for each
  subscription that lists a channel of \<open>cs\<close>, in the order of the map, and nothing for any
  other subscription; no callback is called by \<open>onMessage\<close> itself.
\<close>

theorem onMessage_event_dispatch:
  assumes "get_prop (Some message) ''type'' = Inr (Some (JStr ''event''))"
    and "get_prop (Some message) ''data'' = Inr data"
    and "opt_prop data ''channels'' = Some (JArr cs)"
  shows "onMessage cfg stored (Some message) st =
     (st\<lparr>lastMessage := Some message\<rparr>,
      (if set cs \<inter> JStr ` set (channels st) = {} then []
       else map (\<lambda>(key, subscription). SetTimeout 0 (CallbackTask subscription data))
              (filter (\<lambda>(key, subscription).
                  set cs \<inter> JStr ` set (sub_channels subscription) \<noteq> {})
                 (subscriptions st))),
      None)"
  using assms(1) onMessage_event_eq [OF assms(2,3), of "st\<lparr>lastMessage := Some message\<rparr>"]
  by (simp add: onMessage_def onMessage_try_def try_catch_def Let_def)

theorem onMessage_event_dispatch_witness:
  "get_prop (Some files_event) ''type'' = Inr (Some (JStr ''event'')) \<and>
   get_prop (Some files_event) ''data'' = Inr (Some files_event_data) \<and>
   opt_prop (Some files_event_data) ''channels'' = Some (JArr [JStr ''files'']) \<and>
   onMessage cfg0 NoItem (Some files_event) two_subscribers =
     (two_subscribers\<lparr>lastMessage := Some files_event\<rparr>,
      [SetTimeout 0 (CallbackTask (Subscription [''files''] 1) (Some files_event_data))],
      None) \<and>
   onMessage cfg0 NoItem (Some files_event) (two_subscribers\<lparr>channels := [''account'']\<rparr>) =
     (two_subscribers\<lparr>channels := [''account''], lastMessage := Some files_event\<rparr>, [], None)"
proof -
  have h1: "get_prop (Some files_event) ''type'' = Inr (Some (JStr ''event''))"
    by (simp add: files_event_def)
  have h2: "get_prop (Some files_event) ''data'' = Inr (Some files_event_data)"
    by (simp add: files_event_def)
  have h3: "opt_prop (Some files_event_data) ''channels'' = Some (JArr [JStr ''files''])"
    by (simp add: files_event_data_def)
  from onMessage_event_dispatch [OF h1 h2 h3, of cfg0 NoItem two_subscribers]
    onMessage_event_dispatch [OF h1 h2 h3, of cfg0 NoItem
      "two_subscribers\<lparr>channels := [''account'']\<rparr>"]
    h1 h2 h3
  show ?thesis by (simp add: two_subscribers_def)
qed

lemma try_catch_None: "snd (snd (try_catch r)) = None"
  by (cases r) (auto simp: try_catch_def split: option.splits)

text \<open>
  Claim C7: no call of \<open>onMessage\<close> ends with an exception, whatever the frame, the stored
  cookie and the state. In particular the SyntaxError of a frame that \<open>JSON.parse\<close> rejects
  and the \<open>data\<close> that the block of \<open>try\<close> throws for a message of kind \<open>error\<close> are caught and
  logged.
\<close>

theorem onMessage_never_throws:
  "snd (snd (onMessage cfg stored frame st)) = None \<and>
   (frame = None \<longrightarrow>
      onMessage_try cfg stored frame st = (st, [], Some SyntaxError) \<and>
      onMessage cfg stored frame st = (st, [ConsoleError (Caught SyntaxError)], None)) \<and>
   (\<forall>message data.
      frame = Some message \<and> get_prop (Some message) ''type'' = Inr (Some (JStr ''error'')) \<and>
      get_prop (Some message) ''data'' = Inr data \<longrightarrow>
      onMessage_try cfg stored frame st =
        (st\<lparr>lastMessage := Some message\<rparr>, [], Some (Thrown data)) \<and>
      onMessage cfg stored frame st =
        (st\<lparr>lastMessage := Some message\<rparr>, [ConsoleError (Caught (Thrown data))], None))"
proof -
  have "snd (snd (onMessage cfg stored frame st)) = None"
    unfolding onMessage_def by (rule try_catch_None)
  then show ?thesis
    by (auto simp: onMessage_def onMessage_try_def try_catch_def)
qed

theorem onMessage_never_throws_witness:
  "onMessage cfg0 NoItem None two_subscribers =
     (two_subscribers, [ConsoleError (Caught SyntaxError)], None) \<and>
   onMessage cfg0 NoItem (Some policy_violation) two_subscribers =
     (two_subscribers\<lparr>lastMessage := Some policy_violation\<rparr>,
      [ConsoleError (Caught (Thrown (Some
         (JObj [(''code'', JNum 1008), (''message'', JStr ''Policy violation'')]))))],
      None) \<and>
   snd (snd (onMessage cfg0 NoItem (Some JNull) two_subscribers)) = None"
proof -
  have t: "get_prop (Some policy_violation) ''type'' = Inr (Some (JStr ''error''))"
    and d: "get_prop (Some policy_violation) ''data'' =
      Inr (Some (JObj [(''code'', JNum 1008), (''message'', JStr ''Policy violation'')]))"
    by (simp_all add: policy_violation_def)
  from onMessage_never_throws [of cfg0 NoItem None two_subscribers]
    onMessage_never_throws [of cfg0 NoItem "Some policy_violation" two_subscribers]
    onMessage_never_throws [of cfg0 NoItem "Some JNull" two_subscribers]
    t d
  show ?thesis by simp
qed

lemma sent_try_catch: "sent (fst (snd (try_catch r))) = sent (fst (snd r))"
proof -
  have "sent (es @ [ConsoleError l]) = sent es" for es :: "'a effect list" and l
    by (induction es rule: sent.induct) simp_all
  then show ?thesis
    by (cases r) (auto simp: try_catch_def split: option.splits)
qed

text \<open>
  Claim C9 fails as it is stated. The client holds an open socket, the cookie stores a
  credential for the project, and the message \<open>{"type":"connected"}\<close> arrives: a parsed
  message of kind \<open>connected\<close> that reports no authenticated user. The read of \<open>user\<close> on a
  \<open>data\<close> that is \<open>undefined\<close> is a TypeError, which \<open>onMessage\<close> catches and logs: no frame is
  sent, where the claim has exactly one.
\<close>

theorem onMessage_connected_bodiless:
  "get_prop (Some bodiless_connected) ''type'' = Inr (Some (JStr ''connected'')) \<and>
   get_prop (Some bodiless_connected) ''data'' = Inr None \<and>
   opt_prop (parse_cookie stored_session) (''a_session_'' @ project cfg0) = Some (JStr ''secret'') \<and>
   socket two_subscribers = Some OPEN \<and>
   onMessage cfg0 stored_session (Some bodiless_connected) two_subscribers =
     (two_subscribers\<lparr>lastMessage := Some bodiless_connected\<rparr>,
      [ConsoleError (Caught TypeError)], None) \<and>
   sent (fst (snd (onMessage cfg0 stored_session (Some bodiless_connected) two_subscribers))) = []"
  by (simp add: bodiless_connected_def stored_session_def two_subscribers_def cfg0_def
      onMessage_def onMessage_try_def onMessage_connected_def try_catch_def Let_def)

text \<open>
  Claim C9, amended: a parsed message of kind \<open>connected\<close>. The stored credential is the
  entry \<open>a_session_<project>\<close> of the stored cookie, and it exists when it counts as true.
  When it exists, the message has a body (a \<open>data\<close> that is not \<open>null\<close>), the body has no
  \<open>user\<close> that counts as true, and the client holds a socket, then \<open>onMessage\<close> calls \<open>send\<close>
  once, with the frame \<open>{type: 'authentication', data: {session: <credential>}}\<close>, and does
  nothing else. When the body has a \<open>user\<close> that counts as true, or no credential exists,
  no frame is sent.
\<close>

theorem onMessage_connected_authentication:
  assumes "get_prop (Some message) ''type'' = Inr (Some (JStr ''connected''))"
  shows
    "(truthy (opt_prop (parse_cookie stored) (''a_session_'' @ project cfg)) \<and>
      get_prop (Some message) ''data'' = Inr (Some body) \<and> body \<noteq> JNull \<and>
      \<not> truthy (opt_prop (Some body) ''user'') \<and> socket st \<noteq> None \<longrightarrow>
      onMessage cfg stored (Some message) st =
        (st\<lparr>lastMessage := Some message\<rparr>,
         [SocketSend (authentication (opt_prop (parse_cookie stored) (''a_session_'' @ project cfg)))],
         None)) \<and>
     ((get_prop (Some message) ''data'' = Inr (Some body) \<and> truthy (opt_prop (Some body) ''user''))
      \<or> \<not> truthy (opt_prop (parse_cookie stored) (''a_session_'' @ project cfg)) \<longrightarrow>
      sent (fst (snd (onMessage cfg stored (Some message) st))) = [])"
proof (cases "parse_cookie stored")
  case None
  with assms show ?thesis
    by (simp add: onMessage_def sent_try_catch onMessage_try_def onMessage_connected_def)
next
  case (Some cookie)
  show ?thesis
  proof (cases "body = JNull")
    case True
    with assms Some show ?thesis
      by (auto simp: onMessage_def sent_try_catch onMessage_try_def onMessage_connected_def
          Let_def split: sum.splits option.splits)
  next
    case False
    with assms Some show ?thesis
      by (auto simp: onMessage_def onMessage_try_def onMessage_connected_def try_catch_def
          Let_def get_prop_not_null split: sum.splits option.splits)
  qed
qed

theorem onMessage_connected_authentication_witness:
  "get_prop (Some (JObj [(''type'', JStr ''connected''),
       (''data'', JObj [(''channels'', JArr [JStr ''files''])])])) ''type'' =
     Inr (Some (JStr ''connected'')) \<and>
   onMessage cfg0 (Item (Some (JObj [(''a_session_p1'', JStr ''secret'')])))
       (Some (JObj [(''type'', JStr ''connected''),
          (''data'', JObj [(''channels'', JArr [JStr ''files''])])])) two_subscribers =
     (two_subscribers\<lparr>lastMessage := Some (JObj [(''type'', JStr ''connected''),
          (''data'', JObj [(''channels'', JArr [JStr ''files''])])])\<rparr>,
      [SocketSend (JObj [(''type'', JStr ''authentication''),
          (''data'', JObj [(''session'', JStr ''secret'')])])],
      None) \<and>
   sent (fst (snd (onMessage cfg0 NoItem
       (Some (JObj [(''type'', JStr ''connected''),
          (''data'', JObj [(''channels'', JArr [JStr ''files''])])])) two_subscribers))) = []"
proof -
  let ?body = "JObj [(''channels'', JArr [JStr ''files''])]"
  let ?m = "JObj [(''type'', JStr ''connected''), (''data'', ?body)]"
  let ?stored = "Item (Some (JObj [(''a_session_p1'', JStr ''secret'')]))"
  have h: "get_prop (Some ?m) ''type'' = Inr (Some (JStr ''connected''))" by simp
  have s: "socket two_subscribers \<noteq> None" by (simp add: two_subscribers_def)
  from onMessage_connected_authentication [OF h, of ?stored cfg0 ?body two_subscribers]
    onMessage_connected_authentication [OF h, of NoItem cfg0 ?body two_subscribers] s
  show ?thesis
    by (simp add: cfg0_def authentication_def)
qed

subsection \<open>The listener of \<open>close\<close>\<close>

text \<open>
  Claim C2 fails as it is stated. The run \<open>bodiless_run\<close> ends in a state in which
  \<open>reconnect\<close> is true, a channel is subscribed, and the last parsed message is
  \<open>{"type":"error"}\<close>: of kind \<open>error\<close>, with no code 1008. On the close that follows, the
  listener reads \<open>code\<close> of a \<open>data\<close> that is \<open>undefined\<close>: it ends with a TypeError and sets
  no timer, where the claim has exactly one.
\<close>

theorem onClose_bodiless_error:
  "reconnect (state (run cfg0 bodiless_run fresh_world)) \<and>
   channels (state (run cfg0 bodiless_run fresh_world)) = [''files''] \<and>
   lastMessage (state (run cfg0 bodiless_run fresh_world)) =
     Some (JObj [(''type'', JStr ''error'')]) \<and>
   onClose (state (run cfg0 bodiless_run fresh_world)) =
     (state (run cfg0 bodiless_run fresh_world), [], Some TypeError)"
  by (simp add: bodiless_run_def eval_defs)

text \<open>
  Claim C2, amended: a close event that finds \<open>reconnect\<close> true. When the last parsed
  message has the kind \<open>error\<close> and a body with the code 1008, the listener sets no timer
  and changes nothing. When there is no last message, or its kind is not \<open>error\<close>, or it has
  a body (a \<open>data\<close> that is not \<open>null\<close>) whose code is not 1008, the listener sets exactly
  one timer, with the delay \<open>getTimeout()\<close> of the current attempt counter, and logs the
  disconnection; when that timer fires, the attempt counter goes up by one and
  \<open>createSocket\<close> runs.
\<close>

theorem onClose_reconnect:
  assumes "reconnect st"
  shows
    "(opt_prop (lastMessage st) ''type'' = Some (JStr ''error'') \<and>
      opt_prop (opt_prop (lastMessage st) ''data'') ''code'' = Some (JNum 1008) \<longrightarrow>
        onClose st = (st, [], None)) \<and>
     ((opt_prop (lastMessage st) ''type'' \<noteq> Some (JStr ''error'') \<or>
       (\<exists>body. opt_prop (lastMessage st) ''data'' = Some body \<and> body \<noteq> JNull \<and>
          opt_prop (Some body) ''code'' \<noteq> Some (JNum 1008))) \<longrightarrow>
        onClose st =
          (st, [ConsoleError (Disconnected (getTimeout st)),
                SetTimeout (getTimeout st) ReconnectTask], None) \<and>
        run_task cfg ReconnectTask st =
          createSocket cfg (st\<lparr>reconnectAttempts := reconnectAttempts st + 1\<rparr>))"
proof (intro conjI impI)
  have r: "st\<lparr>reconnect := True\<rparr> = st" using assms by simp
  {
    assume a: "opt_prop (lastMessage st) ''type'' = Some (JStr ''error'') \<and>
      opt_prop (opt_prop (lastMessage st) ''data'') ''code'' = Some (JNum 1008)"
    from a opt_prop_SomeD obtain kvs where m: "lastMessage st = Some (JObj kvs)"
      by blast
    from a opt_prop_SomeD [of "opt_prop (lastMessage st) ''data''" "''code''" "JNum 1008"]
    obtain dkvs where d: "opt_prop (lastMessage st) ''data'' = Some (JObj dkvs)"
      and c: "map_of dkvs ''code'' = Some (JNum 1008)"
      by blast
    from a m d c assms show "onClose st = (st, [], None)"
      by (simp add: onClose_def Let_def r)
  }
  {
    assume a: "opt_prop (lastMessage st) ''type'' \<noteq> Some (JStr ''error'') \<or>
       (\<exists>body. opt_prop (lastMessage st) ''data'' = Some body \<and> body \<noteq> JNull \<and>
          opt_prop (Some body) ''code'' \<noteq> Some (JNum 1008))"
    show "onClose st =
          (st, [ConsoleError (Disconnected (getTimeout st)),
                SetTimeout (getTimeout st) ReconnectTask], None)"
    proof (cases "opt_prop (lastMessage st) ''type'' = Some (JStr ''error'')")
      case False
      with assms show ?thesis by (simp add: onClose_def Let_def)
    next
      case True
      with a obtain body where b: "opt_prop (lastMessage st) ''data'' = Some body"
        "body \<noteq> JNull" "opt_prop (Some body) ''code'' \<noteq> Some (JNum 1008)"
        by blast
      from True opt_prop_SomeD obtain kvs where m: "lastMessage st = Some (JObj kvs)"
        by blast
      from True m b assms show ?thesis
        by (simp add: onClose_def Let_def get_prop_not_null)
    qed
    show "run_task cfg ReconnectTask st =
          createSocket cfg (st\<lparr>reconnectAttempts := reconnectAttempts st + 1\<rparr>)"
      by simp
  }
qed

theorem onClose_reconnect_witness:
  "reconnect (two_subscribers\<lparr>lastMessage := Some policy_violation\<rparr>) \<and>
   onClose (two_subscribers\<lparr>lastMessage := Some policy_violation\<rparr>) =
     (two_subscribers\<lparr>lastMessage := Some policy_violation\<rparr>, [], None) \<and>
   reconnect (two_subscribers\<lparr>reconnectAttempts := 7\<rparr>) \<and>
   onClose (two_subscribers\<lparr>reconnectAttempts := 7\<rparr>) =
     (two_subscribers\<lparr>reconnectAttempts := 7\<rparr>,
      [ConsoleError (Disconnected 5000), SetTimeout 5000 ReconnectTask], None) \<and>
   run_task cfg0 ReconnectTask (two_subscribers\<lparr>reconnectAttempts := 7\<rparr>) =
     createSocket cfg0 (two_subscribers\<lparr>reconnectAttempts := 8\<rparr>) \<and>
   onClose (two_subscribers\<lparr>lastMessage :=
       Some (JObj [(''type'', JStr ''error''), (''data'', JObj [(''code'', JNum 1003)])])\<rparr>) =
     (two_subscribers\<lparr>lastMessage :=
        Some (JObj [(''type'', JStr ''error''), (''data'', JObj [(''code'', JNum 1003)])])\<rparr>,
      [ConsoleError (Disconnected 1000), SetTimeout 1000 ReconnectTask], None)"
proof -
  let ?c = "two_subscribers\<lparr>lastMessage :=
       Some (JObj [(''type'', JStr ''error''), (''data'', JObj [(''code'', JNum 1003)])])\<rparr>"
  have rc: "reconnect ?c" by (simp add: two_subscribers_def fresh_def)
  have gc: "getTimeout ?c = 1000" by (simp add: getTimeout_def two_subscribers_def fresh_def)
  let ?a = "two_subscribers\<lparr>lastMessage := Some policy_violation\<rparr>"
  let ?b = "two_subscribers\<lparr>reconnectAttempts := 7\<rparr>"
  have ra: "reconnect ?a" and rb: "reconnect ?b"
    by (simp_all add: two_subscribers_def fresh_def)
  have la: "lastMessage ?a = Some policy_violation" and lb: "lastMessage ?b = None"
    by (simp_all add: two_subscribers_def fresh_def)
  have g: "getTimeout ?b = 5000" by (simp add: getTimeout_def)
  from onClose_reconnect [OF ra, of cfg0] onClose_reconnect [OF rb, of cfg0]
    onClose_reconnect [OF rc, of cfg0] ra rb
  show ?thesis
    by (simp add: la lb g gc policy_violation_def)
qed

lemma lastMessage_step:
  "\<not> parsed ev \<Longrightarrow> lastMessage (state (step cfg ev w)) = lastMessage (state w)"
proof (cases ev)
  case (Subscribe arg cb h)
  then show ?thesis
    by (cases "subscribe h arg cb (state w)")
      (use subscribe_fields(4) [of h arg cb "state w"] in auto)
next
  case (Unsubscribe i h)
  then show ?thesis by (simp add: unsubscribe_fields)
next
  case (Fires t)
  then show ?thesis by (simp add: run_task_fields)
next
  case SocketOpen
  then show ?thesis by (simp add: onOpen_def)
next
  case SocketClosed
  then show ?thesis by (simp add: onClose_fields)
next
  case (SocketMessage frame stored)
  assume "\<not> parsed ev"
  with SocketMessage have "frame = None" by (cases frame) simp_all
  with SocketMessage show ?thesis by (simp add: onMessage_state)
next
  case (ReadyState rs)
  then show ?thesis by (simp split: option.splits)
qed

lemma lastMessage_run:
  "\<forall>ev \<in> set evs. \<not> parsed ev \<Longrightarrow>
     lastMessage (state (run cfg evs w)) = lastMessage (state w)"
  unfolding run_def
  by (induction evs arbitrary: w) (simp_all add: lastMessage_step)

lemma onClose_policy_violation:
  assumes "opt_prop (lastMessage st) ''type'' = Some (JStr ''error'')"
    and "opt_prop (opt_prop (lastMessage st) ''data'') ''code'' = Some (JNum 1008)"
  shows "fst (snd (onClose st)) = []"
proof -
  from assms(1) opt_prop_SomeD obtain kvs where m: "lastMessage st = Some (JObj kvs)"
    by blast
  from assms(2) opt_prop_SomeD [of "opt_prop (lastMessage st) ''data''" "''code''" "JNum 1008"]
  obtain dkvs where d: "opt_prop (lastMessage st) ''data'' = Some (JObj dkvs)"
    and c: "map_of dkvs ''code'' = Some (JNum 1008)"
    by blast
  from assms m d c show ?thesis
    by (simp add: onClose_def Let_def)
qed

text \<open>
  Claim C10: \<open>lastMessage\<close> is assigned by every frame that is parsed and by nothing else.
  So after a message of kind \<open>error\<close> with the code 1008, as long as no further frame is
  parsed, every close event sets no reconnect timer, not only the first one: here a first
  close after the events \<open>evs1\<close>, and a second close after the further events \<open>evs2\<close>, both
  set no timer, whatever the state before and whatever \<open>reconnect\<close> is.
\<close>

theorem policy_violation_persists:
  assumes "opt_prop (Some message) ''type'' = Some (JStr ''error'')"
    and "opt_prop (opt_prop (Some message) ''data'') ''code'' = Some (JNum 1008)"
    and "\<forall>ev \<in> set evs1. \<not> parsed ev" and "\<forall>ev \<in> set evs2. \<not> parsed ev"
  shows
    "timers (fst (snd (onClose (state
        (run cfg evs1 (step cfg (SocketMessage (Some message) stored) w)))))) = [] \<and>
     timers (fst (snd (onClose (state
        (run cfg (evs1 @ SocketClosed # evs2)
           (step cfg (SocketMessage (Some message) stored) w)))))) = []"
proof -
  let ?w = "step cfg (SocketMessage (Some message) stored) w"
  have l: "lastMessage (state ?w) = Some message"
    by (simp add: onMessage_state)
  have "\<forall>ev \<in> set (evs1 @ SocketClosed # evs2). \<not> parsed ev"
    using assms(3,4) by auto
  then have "lastMessage (state (run cfg (evs1 @ SocketClosed # evs2) ?w)) = Some message"
    using l by (simp only: lastMessage_run)
  moreover have "lastMessage (state (run cfg evs1 ?w)) = Some message"
    using l assms(3) by (simp only: lastMessage_run)
  ultimately show ?thesis
    using assms(1,2) by (simp only: onClose_policy_violation timers.simps simp_thms)
qed

theorem policy_violation_persists_witness:
  "opt_prop (Some policy_violation) ''type'' = Some (JStr ''error'') \<and>
   opt_prop (opt_prop (Some policy_violation) ''data'') ''code'' = Some (JNum 1008) \<and>
   filter parsed first_close = [] \<and> filter parsed second_close = [] \<and>
   reconnect (state (run cfg0 first_close (step cfg0 (SocketMessage (Some policy_violation) NoItem)
        (run cfg0 connected_run fresh_world)))) \<and>
   timers (fst (snd (onClose (state
        (run cfg0 first_close (step cfg0 (SocketMessage (Some policy_violation) NoItem)
           (run cfg0 connected_run fresh_world))))))) = [] \<and>
   reconnect (state (run cfg0 (first_close @ SocketClosed # second_close)
        (step cfg0 (SocketMessage (Some policy_violation) NoItem)
           (run cfg0 connected_run fresh_world)))) \<and>
   socket (state (run cfg0 (first_close @ SocketClosed # second_close)
        (step cfg0 (SocketMessage (Some policy_violation) NoItem)
           (run cfg0 connected_run fresh_world)))) = Some CLOSED \<and>
   channels (state (run cfg0 (first_close @ SocketClosed # second_close)
        (step cfg0 (SocketMessage (Some policy_violation) NoItem)
           (run cfg0 connected_run fresh_world)))) = [''files'', ''account''] \<and>
   timers (fst (snd (onClose (state
        (run cfg0 (first_close @ SocketClosed # second_close)
           (step cfg0 (SocketMessage (Some policy_violation) NoItem)
              (run cfg0 connected_run fresh_world))))))) = []"
proof -
  let ?w = "step cfg0 (SocketMessage (Some policy_violation) NoItem)
      (run cfg0 connected_run fresh_world)"
  have h1: "opt_prop (Some policy_violation) ''type'' = Some (JStr ''error'')"
    and h2: "opt_prop (opt_prop (Some policy_violation) ''data'') ''code'' = Some (JNum 1008)"
    by (simp_all add: policy_violation_def)
  have h3: "\<forall>ev \<in> set first_close. \<not> parsed ev"
    and h4: "\<forall>ev \<in> set second_close. \<not> parsed ev"
    by (simp_all add: first_close_def second_close_def)
  have f3: "filter parsed first_close = []" and f4: "filter parsed second_close = []"
    by (simp_all add: first_close_def second_close_def)
  have r1: "reconnect (state (run cfg0 first_close ?w))"
    by (simp add: first_close_def connected_run_def policy_violation_def eval_defs)
  have r2: "reconnect (state (run cfg0 (first_close @ SocketClosed # second_close) ?w))"
    by (simp add: first_close_def second_close_def connected_run_def policy_violation_def
        eval_defs)
  have s2: "socket (state (run cfg0 (first_close @ SocketClosed # second_close) ?w)) =
      Some CLOSED"
    by (simp add: first_close_def second_close_def connected_run_def policy_violation_def
        eval_defs)
  have c2: "channels (state (run cfg0 (first_close @ SocketClosed # second_close) ?w)) =
      [''files'', ''account'']"
    by (simp add: first_close_def second_close_def connected_run_def policy_violation_def
        eval_defs)
  note t = policy_violation_persists [OF h1 h2 h3 h4, of cfg0 NoItem
      "run cfg0 connected_run fresh_world"]
  show ?thesis
    by (intro conjI h1 h2 f3 f4 r1 r2 s2 c2 t [THEN conjunct1] t [THEN conjunct2])
qed


end
